theory Spec2Isabelle
  imports Complex_Main "HOL-Library.Char_ord" "HOL-Library.List_Lexorder" "HOL-Library.Multiset"
begin

section \<open>Python strings\<close>

text \<open>
  A Python \<^verbatim>\<open>str\<close> is a sequence of code points and \<^verbatim>\<open>len\<close> counts them. The model
  is \<^typ>\<open>string\<close>, one \<^typ>\<open>char\<close> per code point, which covers the code points below
  256 (ASCII and Latin-1); strings with larger code points are outside the model.

  \<^verbatim>\<open>str.isspace\<close> on that range: tab, line feed, vertical tab, form feed, carriage
  return, the separators 0x1C to 0x1F, space, NEL (0x85) and the no-break space (0xA0).
  \<^verbatim>\<open>str.lower\<close> on that range: A to Z and the capital letters 0xC0 to 0xDE (the
  multiplication sign 0xD7 apart) move up by 32, every other code point stays.
\<close>

definition py_isspace :: "char \<Rightarrow> bool" where
  "py_isspace c = (of_char c \<in> {9, 10, 11, 12, 13, 28, 29, 30, 31, 32, 133, 160 :: nat})"

definition lower_char :: "char \<Rightarrow> char" where
  "lower_char c =
     (let n = (of_char c :: nat)
      in if (65 \<le> n \<and> n \<le> 90) \<or> (192 \<le> n \<and> n \<le> 222 \<and> n \<noteq> 215)
         then char_of (n + 32) else c)"

definition py_lower :: "string \<Rightarrow> string" where
  "py_lower s = map lower_char s"

text \<open>\<^verbatim>\<open>s.strip()\<close>: leading and trailing whitespace removed.\<close>

definition py_strip :: "string \<Rightarrow> string" where
  "py_strip s = rev (dropWhile py_isspace (rev (dropWhile py_isspace s)))"

text \<open>\<^verbatim>\<open>sep.join(xs)\<close>.\<close>

fun py_join :: "string \<Rightarrow> string list \<Rightarrow> string" where
  "py_join sep [] = []"
| "py_join sep [x] = x"
| "py_join sep (x # y # ys) = x @ sep @ py_join sep (y # ys)"

text \<open>\<^verbatim>\<open>xs[:n]\<close> for an integer \<open>n\<close>: a negative \<open>n\<close> counts from the end.\<close>

definition py_slice_to :: "'a list \<Rightarrow> int \<Rightarrow> 'a list" where
  "py_slice_to xs n =
     (if 0 \<le> n then take (nat n) xs else take (nat (int (length xs) + n)) xs)"

text \<open>\<^verbatim>\<open>needle in s\<close> for strings: \<open>needle\<close> occurs as a contiguous block.\<close>

fun py_contains :: "string \<Rightarrow> string \<Rightarrow> bool" where
  "py_contains needle [] = (needle = [])"
| "py_contains needle (c # cs) =
     (take (length needle) (c # cs) = needle \<or> py_contains needle cs)"

section \<open>utils/validators.py\<close>

datatype error = ValidationError string

text \<open>
  The counts reach the validators as values of any type (they are read from a
  \<^verbatim>\<open>Dict[str, Any]\<close>); \<open>PyInt\<close> is an \<^verbatim>\<open>int\<close>, \<open>PyOther\<close> stands for a
  value that fails \<^verbatim>\<open>isinstance(count, int)\<close>.
\<close>

datatype pyval = PyInt int | PyOther

definition suspicious_chars :: "char list" where
  "suspicious_chars =
     [CHR ''<'', CHR ''>'', CHR ''{'', CHR ''}'', CHR ''['', CHR '']'', CHR 0x5C]"

definition validate_location :: "string \<Rightarrow> string \<Rightarrow> error + bool" where
  "validate_location location field_name =
     (if location = [] \<or> py_strip location = []
      then Inl (ValidationError (field_name @ '' cannot be empty''))
      else let location = py_strip location
        in if length location < 2
           then Inl (ValidationError (field_name @ '' must be at least 2 characters''))
           else if length location > 100
           then Inl (ValidationError (field_name @ '' name is too long (max 100 characters)''))
           else if list_ex (\<lambda>c. c \<in> set suspicious_chars) location
           then Inl (ValidationError (field_name @ '' contains invalid characters''))
           else Inr True)"

fun validate_people_count :: "pyval \<Rightarrow> error + bool" where
  "validate_people_count PyOther = Inl (ValidationError ''Number of travelers must be a number'')"
| "validate_people_count (PyInt cnt) =
     (if cnt < 1 then Inl (ValidationError ''At least 1 traveler is required'')
      else if cnt > 50 then Inl (ValidationError ''Maximum 50 travelers allowed'')
      else Inr True)"

fun validate_days :: "pyval \<Rightarrow> error + bool" where
  "validate_days PyOther = Inl (ValidationError ''Trip duration must be a number'')"
| "validate_days (PyInt days) =
     (if days < 1 then Inl (ValidationError ''Trip must be at least 1 day'')
      else if days > 365 then Inl (ValidationError ''Maximum trip duration is 365 days'')
      else Inr True)"

definition validate_same_location :: "string \<Rightarrow> string \<Rightarrow> error + bool" where
  "validate_same_location from_loc to_loc =
     (if py_strip (py_lower from_loc) = py_strip (py_lower to_loc)
      then Inl (ValidationError ''Departure and destination cannot be the same'')
      else Inr True)"

text \<open>
  \<^verbatim>\<open>re.sub(r'<[^>]+>', '', text)\<close>: the scan goes left to right; at a \<open><\<close> that is
  followed by at least one character other than \<open>>\<close> and then by a \<open>>\<close>, everything up
  to that first \<open>>\<close> is dropped and the scan goes on behind it (the class \<open>[^>]\<close> also
  matches a line break); any other character is kept.
\<close>

function re_sub_tags :: "string \<Rightarrow> string" where
  "re_sub_tags [] = []"
| "re_sub_tags (c # cs) =
     (let body = takeWhile (\<lambda>x. x \<noteq> CHR ''>'') cs;
          rest = dropWhile (\<lambda>x. x \<noteq> CHR ''>'') cs
      in if c = CHR ''<'' \<and> body \<noteq> [] \<and> rest \<noteq> []
         then re_sub_tags (tl rest) else c # re_sub_tags cs)"
  by pat_completeness auto
termination
proof (relation "measure length")
  fix c :: char and cs body rest :: string
  assume "rest = dropWhile (\<lambda>x. x \<noteq> CHR ''>'') cs"
  then have "length (tl rest) \<le> length cs"
    using length_dropWhile_le [of "\<lambda>x. x \<noteq> CHR ''>''" cs] by simp
  then show "(tl rest, c # cs) \<in> measure length" by simp
qed simp_all

text \<open>
  \<^verbatim>\<open>re.sub(r'<script.*?</script>', '', text, flags=re.DOTALL | re.IGNORECASE)\<close>:
  \<open>ci_prefix pat s\<close> matches the lower-case literal \<open>pat\<close> at the head of \<open>s\<close>
  ignoring case; \<open>after_first pat s\<close> is what follows the first such match in \<open>s\<close>,
  which is where the lazy \<open>.*?\<close> stops.
\<close>

definition ci_prefix :: "string \<Rightarrow> string \<Rightarrow> bool" where
  "ci_prefix pat s = (map lower_char (take (length pat) s) = pat)"

fun after_first :: "string \<Rightarrow> string \<Rightarrow> string option" where
  "after_first pat [] = (if pat = [] then Some [] else None)"
| "after_first pat (c # cs) =
     (if ci_prefix pat (c # cs) then Some (drop (length pat) (c # cs))
      else after_first pat cs)"

function re_sub_script :: "string \<Rightarrow> string" where
  "re_sub_script [] = []"
| "re_sub_script (c # cs) =
     (if ci_prefix ''<script'' (c # cs)
      then (case after_first ''</script>'' (drop 7 (c # cs)) of
              Some rest \<Rightarrow> re_sub_script rest
            | None \<Rightarrow> c # re_sub_script cs)
      else c # re_sub_script cs)"
  by pat_completeness auto
termination
proof (relation "measure length")
  fix c :: char and cs rest :: string
  have len: "after_first pat s = Some r \<Longrightarrow> pat \<noteq> [] \<Longrightarrow> length r < length s" for pat s r
    by (induction s) (auto split: if_splits)
  assume "after_first ''</script>'' (drop 7 (c # cs)) = Some rest"
  then have "length rest < length (drop 7 (c # cs))"
    by (rule len) simp
  then show "(rest, c # cs) \<in> measure length" by simp
qed simp_all

definition sanitize_text_input :: "string \<Rightarrow> int \<Rightarrow> string" where
  "sanitize_text_input text max_length =
     (if text = [] then []
      else let text = re_sub_tags text;
               text = re_sub_script text;
               text = py_strip text
        in if int (length text) > max_length
           then py_slice_to text max_length @ ''...''
           else text)"

text \<open>The call without \<^verbatim>\<open>max_length\<close>: the signature's default is 500.\<close>

definition sanitize_text_input_default :: "string \<Rightarrow> string" where
  "sanitize_text_input_default text = sanitize_text_input text 500"


text \<open>
  \<open>has_tag s\<close>: the pattern \<^verbatim>\<open><[^>]+>\<close> matches somewhere in \<open>s\<close>
  (\<^verbatim>\<open>re.search\<close> finds a tag). \<open>trimmed s\<close>: no whitespace at either end.
\<close>

definition tag_at :: "string \<Rightarrow> bool" where
  "tag_at s =
     (case s of [] \<Rightarrow> False
      | c # cs \<Rightarrow> c = CHR ''<'' \<and> takeWhile (\<lambda>x. x \<noteq> CHR ''>'') cs \<noteq> []
                 \<and> dropWhile (\<lambda>x. x \<noteq> CHR ''>'') cs \<noteq> [])"

fun has_tag :: "string \<Rightarrow> bool" where
  "has_tag [] = False"
| "has_tag (c # cs) = (tag_at (c # cs) \<or> has_tag cs)"

definition trimmed :: "string \<Rightarrow> bool" where
  "trimmed s = (s = [] \<or> (\<not> py_isspace (hd s) \<and> \<not> py_isspace (last s)))"

text \<open>
  The input bundle is a dictionary; a field of the record is \<open>None\<close> when its key is
  absent. The key \<^verbatim>\<open>notes\<close> is the field \<open>notes_text\<close>. The function writes the
  sanitised notes into the caller's dictionary before it raises or returns, so the model
  returns the dictionary after the call together with the outcome.
\<close>

record trip_data =
  from_city :: "string option"
  to_city :: "string option"
  people :: "pyval option"
  days :: "pyval option"
  notes_text :: "string option"

definition dict_get :: "'a option \<Rightarrow> 'a \<Rightarrow> 'a" where
  "dict_get v dflt = (case v of None \<Rightarrow> dflt | Some x \<Rightarrow> x)"

definition collect :: "string list \<Rightarrow> error + bool \<Rightarrow> string list" where
  "collect errors r = (case r of Inl (ValidationError msg) \<Rightarrow> errors @ [msg] | Inr _ \<Rightarrow> errors)"

definition sanitize_notes :: "'a trip_data_scheme \<Rightarrow> 'a trip_data_scheme" where
  "sanitize_notes trip_data =
     (case notes_text trip_data of
        None \<Rightarrow> trip_data
      | Some n \<Rightarrow> trip_data\<lparr>notes_text := Some (sanitize_text_input n 1000)\<rparr>)"

definition validate_complete_trip_input ::
  "'a trip_data_scheme \<Rightarrow> 'a trip_data_scheme \<times> (error + 'a trip_data_scheme)" where
  "validate_complete_trip_input trip_data =
     (let errors = [];
          errors = collect errors
            (validate_location (dict_get (trip_data.from_city trip_data) []) ''Departure location'');
          errors = collect errors
            (validate_location (dict_get (trip_data.to_city trip_data) []) ''Destination'');
          errors =
            (case (trip_data.from_city trip_data, trip_data.to_city trip_data) of
               (Some f, Some t) \<Rightarrow>
                 if f \<noteq> [] \<and> t \<noteq> [] then collect errors (validate_same_location f t)
                 else errors
             | _ \<Rightarrow> errors);
          errors = collect errors
            (validate_people_count (dict_get (trip_data.people trip_data) (PyInt 0)));
          errors = collect errors
            (validate_days (dict_get (trip_data.days trip_data) (PyInt 0)));
          trip_data = sanitize_notes trip_data
      in if errors \<noteq> [] then (trip_data, Inl (ValidationError (py_join [CHR 0x0A] errors)))
         else (trip_data, Inr trip_data))"

text \<open>
  The messages of the checks that fail on a bundle, in the order of the checks: the two
  location checks, the same-location check when both locations are non-empty, the
  people check and the days check.
\<close>

definition failure :: "error + bool \<Rightarrow> string list" where
  "failure r = (case r of Inl (ValidationError msg) \<Rightarrow> [msg] | Inr _ \<Rightarrow> [])"

definition failure_messages :: "'a trip_data_scheme \<Rightarrow> string list" where
  "failure_messages trip_data =
     (let f = dict_get (trip_data.from_city trip_data) [];
          t = dict_get (trip_data.to_city trip_data) []
      in failure (validate_location f ''Departure location'')
       @ failure (validate_location t ''Destination'')
       @ (if f \<noteq> [] \<and> t \<noteq> [] then failure (validate_same_location f t) else [])
       @ failure (validate_people_count (dict_get (trip_data.people trip_data) (PyInt 0)))
       @ failure (validate_days (dict_get (trip_data.days trip_data) (PyInt 0))))"

section \<open>services/storage_service.py\<close>

text \<open>
  The field \<^verbatim>\<open>id\<close> of the source is \<open>trip_id\<close> here. The backing file holds a JSON
  list of the \<^verbatim>\<open>asdict\<close> images of trip records; a decoded file is modelled by the
  list of records themselves, so that \<open>to_dict\<close> and \<open>from_dict\<close> are the identity.
\<close>

record TripRecord =
  trip_id :: string
  timestamp :: string
  from_city :: string
  to_city :: string
  days :: int
  people :: int
  group_type :: string
  trip_plan :: string

definition to_dict :: "TripRecord \<Rightarrow> TripRecord" where
  to_dict_def [simp]: "to_dict r = r"

definition from_dict :: "TripRecord \<Rightarrow> TripRecord" where
  from_dict_def [simp]: "from_dict d = d"

text \<open>
  The state of the service is the backing file and what the process may do with it. The
  file is \<open>Missing\<close>, or holds content on which \<^verbatim>\<open>json.load\<close> raises
  \<^verbatim>\<open>JSONDecodeError\<close> (\<open>Undecodable\<close>), or holds a list of records (\<open>Decoded\<close>).
  \<open>readable\<close>: the process may open the file for reading when it exists; \<open>writable\<close>:
  it may open it for writing, which creates a missing file. Opening a missing file or a
  file that is not readable for reading raises, and \<^verbatim>\<open>_read_data\<close> returns the empty
  list; opening for writing without the permission raises and leaves the file as it
  was. A write changes the content only: a file that cannot be read stays so.
\<close>

datatype file_content = Missing | Undecodable | Decoded "TripRecord list"

record TripStorage =
  backing_file :: file_content
  readable :: bool
  writable :: bool

definition read_data :: "TripStorage \<Rightarrow> TripRecord list" where
  "read_data st =
     (if readable st
      then (case backing_file st of Decoded data \<Rightarrow> data | Undecodable \<Rightarrow> [] | Missing \<Rightarrow> [])
      else [])"

definition write_data :: "TripStorage \<Rightarrow> TripRecord list \<Rightarrow> TripStorage \<times> bool" where
  "write_data st data =
     (if writable st then (st\<lparr>backing_file := Decoded data\<rparr>, True) else (st, False))"

text \<open>
  \<open>now_id\<close> and \<open>now_iso\<close> are the two readings of the clock, formatted to the second
  and in ISO format.
\<close>

definition save_trip ::
  "TripStorage \<Rightarrow> string \<Rightarrow> string \<Rightarrow> string \<Rightarrow> string \<Rightarrow> int \<Rightarrow> int \<Rightarrow> string \<Rightarrow> string
     \<Rightarrow> TripStorage \<times> string option" where
  "save_trip st now_id now_iso from_city' to_city' days' people' group_type' trip_plan' =
     (let trip_record = \<lparr>trip_id = now_id, timestamp = now_iso, from_city = from_city',
            to_city = to_city', days = days', people = people', group_type = group_type',
            trip_plan = trip_plan'\<rparr>;
          data = read_data st;
          data = data @ [to_dict trip_record]
      in case write_data st data of
           (st', True) \<Rightarrow> (st', Some now_id)
         | (st', False) \<Rightarrow> (st', None))"

definition get_trip :: "TripStorage \<Rightarrow> string \<Rightarrow> TripRecord option" where
  "get_trip st tid =
     map_option from_dict (find (\<lambda>record. trip_id record = tid) (read_data st))"

text \<open>
  \<^verbatim>\<open>xs.sort(key=key, reverse=True)\<close>: descending, and elements with equal keys keep
  their order.
\<close>

definition py_sort_reverse :: "('a \<Rightarrow> 'k::linorder) \<Rightarrow> 'a list \<Rightarrow> 'a list" where
  "py_sort_reverse key xs = rev (sort_key key (rev xs))"

definition get_all_trips :: "TripStorage \<Rightarrow> int option \<Rightarrow> TripRecord list" where
  "get_all_trips st limit =
     (let data = read_data st;
          data = py_sort_reverse timestamp data;
          data = (case limit of
                    None \<Rightarrow> data
                  | Some l \<Rightarrow> if l \<noteq> 0 then py_slice_to data l else data)
      in map from_dict data)"

definition delete_trip :: "TripStorage \<Rightarrow> string \<Rightarrow> TripStorage \<times> bool" where
  "delete_trip st tid =
     (let data = read_data st;
          original_length = length data;
          data = filter (\<lambda>record. trip_id record \<noteq> tid) data
      in if length data < original_length
         then (case write_data st data of
                 (st', True) \<Rightarrow> (st', True)
               | (st', False) \<Rightarrow> (st', False))
         else (st, False))"

definition clear_all :: "TripStorage \<Rightarrow> TripStorage \<times> bool" where
  "clear_all st = (case write_data st [] of (st', True) \<Rightarrow> (st', True) | (st', False) \<Rightarrow> (st', False))"


section \<open>services/location_service.py\<close>

text \<open>
  Coordinates are floats; their type is the parameter \<open>'f\<close>, \<open>parse\<close> is
  \<^verbatim>\<open>float\<close> on strings (\<open>None\<close> when it raises \<^verbatim>\<open>ValueError\<close>) and \<open>zero\<close>
  is \<^verbatim>\<open>float(0)\<close>. A raw result is the dictionary of the geocoding response; a field
  is \<open>None\<close> when its key is absent.
\<close>

datatype py_exception = ValueError

record 'f Location =
  name :: string
  label :: string
  lat :: 'f
  lon :: 'f
  city :: "string option"
  state :: "string option"
  country :: "string option"

record nominatim_result =
  address :: "(string \<rightharpoonup> string) option"
  display_name :: "string option"
  raw_lat :: "string option"
  raw_lon :: "string option"

text \<open>\<^verbatim>\<open>a or b\<close> on optional strings: \<open>None\<close> and the empty string are falsy.\<close>

definition py_or :: "string option \<Rightarrow> string option \<Rightarrow> string option" where
  "py_or a b = (case a of None \<Rightarrow> b | Some s \<Rightarrow> if s \<noteq> [] then a else b)"

definition py_float :: "(string \<Rightarrow> 'f option) \<Rightarrow> 'f \<Rightarrow> string option \<Rightarrow> py_exception + 'f" where
  "py_float parse zero v =
     (case v of
        None \<Rightarrow> Inr zero
      | Some s \<Rightarrow> (case parse s of None \<Rightarrow> Inl ValueError | Some x \<Rightarrow> Inr x))"

definition from_nominatim ::
  "(string \<Rightarrow> 'f option) \<Rightarrow> 'f \<Rightarrow> nominatim_result \<Rightarrow> py_exception + 'f Location" where
  "from_nominatim parse zero data =
     (let address = dict_get (address data) Map.empty;
          display_name = dict_get (display_name data) []
      in case py_float parse zero (raw_lat data) of
           Inl e \<Rightarrow> Inl e
         | Inr lat' \<Rightarrow>
        (case py_float parse zero (raw_lon data) of
           Inl e \<Rightarrow> Inl e
         | Inr lon' \<Rightarrow>
             Inr \<lparr>name = display_name, label = display_name, lat = lat', lon = lon',
                  city = py_or (py_or (address ''city'') (address ''town'')) (address ''village''),
                  state = address ''state'',
                  country = address ''country''\<rparr>))"

text \<open>
  The outcome of \<^verbatim>\<open>requests.get\<close>, \<^verbatim>\<open>raise_for_status\<close> and \<^verbatim>\<open>response.json()\<close>
  for a query. The world holds the clock (\<^verbatim>\<open>time.time()\<close>; sleeping moves it) and
  the list of the queries sent over the transport so far.
\<close>

datatype http_outcome = Timeout | RequestException | OtherException | Json "nominatim_result list"

record LocationService =
  rate_limit_delay :: real
  last_request_time :: real

record world =
  clock :: real
  requests :: "string list"

definition respect_rate_limit :: "LocationService \<Rightarrow> world \<Rightarrow> LocationService \<times> world" where
  "respect_rate_limit self w =
     (let elapsed = clock w - last_request_time self;
          w = (if elapsed < rate_limit_delay self
               then w\<lparr>clock := clock w + (rate_limit_delay self - elapsed)\<rparr> else w)
      in (self\<lparr>last_request_time := clock w\<rparr>, w))"

fun map_from_nominatim ::
  "(string \<Rightarrow> 'f option) \<Rightarrow> 'f \<Rightarrow> nominatim_result list \<Rightarrow> py_exception + 'f Location list" where
  "map_from_nominatim parse zero [] = Inr []"
| "map_from_nominatim parse zero (r # rs) =
     (case from_nominatim parse zero r of
        Inl e \<Rightarrow> Inl e
      | Inr l \<Rightarrow> (case map_from_nominatim parse zero rs of
                   Inl e \<Rightarrow> Inl e
                 | Inr ls \<Rightarrow> Inr (l # ls)))"

definition search ::
  "(string \<Rightarrow> http_outcome) \<Rightarrow> (string \<Rightarrow> 'f option) \<Rightarrow> 'f \<Rightarrow> LocationService \<Rightarrow> world \<Rightarrow> string
     \<Rightarrow> 'f Location list \<times> LocationService \<times> world" where
  "search http_get parse zero self w query =
     (if query = [] \<or> py_strip query = [] then ([], self, w)
      else let (self, w) = respect_rate_limit self w;
               w = w\<lparr>requests := requests w @ [py_strip query]\<rparr>
        in case http_get (py_strip query) of
             Timeout \<Rightarrow> ([], self, w)
           | RequestException \<Rightarrow> ([], self, w)
           | OtherException \<Rightarrow> ([], self, w)
           | Json results \<Rightarrow>
               (case map_from_nominatim parse zero results of
                  Inl e \<Rightarrow> ([], self, w)
                | Inr locations \<Rightarrow> (locations, self, w)))"

section \<open>services/agent_service.py\<close>

text \<open>
  The language model with its bound tools is a parameter: on a conversation it either
  raises (\<open>Inl\<close>, with the text of the exception) or answers with the content and the
  tool calls of one assistant message. Within one run no conversation is sent twice, so
  a function of the conversation covers a model that answers differently each time. A
  tool either raises or returns its text. The system prompt is a parameter as well.
\<close>

datatype tool_call = ToolCall (call_id: string) (tool_name: string) (tool_args: string)

datatype message =
    SystemMessage string
  | HumanMessage string
  | AIMessage string "tool_call list"
  | ToolMessage string string

fun is_system :: "message \<Rightarrow> bool" where
  "is_system (SystemMessage _) = True"
| "is_system _ = False"

definition agent_error_text :: "string \<Rightarrow> string" where
  "agent_error_text e =
     ''I encountered an error while processing your request: '' @ e
       @ ''. Please try again or rephrase your query.''"

definition agent_node ::
  "string \<Rightarrow> (message list \<Rightarrow> string + string \<times> tool_call list) \<Rightarrow> message list \<Rightarrow> message list" where
  "agent_node SYSTEM_PROMPT llm_with_tools agent_state =
     (let messages = agent_state;
          messages = (if messages = [] \<or> \<not> is_system (hd messages)
                      then SystemMessage SYSTEM_PROMPT # messages else messages)
      in case llm_with_tools messages of
           Inr (content, tool_calls) \<Rightarrow> [AIMessage content tool_calls]
         | Inl e \<Rightarrow> [AIMessage (agent_error_text e) []])"

fun tool_node :: "(tool_call \<Rightarrow> string + string) \<Rightarrow> tool_call list \<Rightarrow> string + message list" where
  "tool_node run_tool [] = Inr []"
| "tool_node run_tool (tc # tcs) =
     (case run_tool tc of
        Inl e \<Rightarrow> Inl e
      | Inr out \<Rightarrow> (case tool_node run_tool tcs of
                     Inl e \<Rightarrow> Inl e
                   | Inr ms \<Rightarrow> Inr (ToolMessage out (call_id tc) # ms)))"

fun pending_tool_calls :: "message \<Rightarrow> tool_call list" where
  "pending_tool_calls (AIMessage _ tool_calls) = tool_calls"
| "pending_tool_calls _ = []"

text \<open>
  The compiled graph is run by the graph library, whose behaviour the code relies on:
  the agent node runs first; \<^verbatim>\<open>tools_condition\<close> sends the state to the tool node
  when the last message requests tool calls and ends the run otherwise; the tool node
  leads back to the agent node; each node's messages are appended to the state. The code
  passes no configuration to \<^verbatim>\<open>invoke\<close>, so the library's recursion limit applies.
  The library counts super-steps: the entry node is step 0, the agent node runs at the
  odd steps and the tool node at the even ones. After the node of step \<open>s\<close> has run,
  the library raises \<^verbatim>\<open>GraphRecursionError\<close> when \<open>s + 1\<close> exceeds the limit, and it
  looks at this before it looks whether the run is over. A limit below 1 is refused
  with \<^verbatim>\<open>ValueError\<close> before the run. The limit and the texts of the two exceptions
  are parameters.
\<close>

record graph_runtime =
  recursion_limit :: nat
  recursion_error :: string
  limit_error :: string

text \<open>\<open>app_loop \<dots> step messages\<close>: the run from the agent node at super-step \<open>step\<close> on.\<close>

function app_loop ::
  "graph_runtime \<Rightarrow> string \<Rightarrow> (message list \<Rightarrow> string + string \<times> tool_call list)
     \<Rightarrow> (tool_call \<Rightarrow> string + string) \<Rightarrow> nat \<Rightarrow> message list \<Rightarrow> string + message list" where
  "app_loop rt SYSTEM_PROMPT llm_with_tools run_tool step messages =
     (let messages = messages @ agent_node SYSTEM_PROMPT llm_with_tools messages
      in if step + 1 > recursion_limit rt then Inl (recursion_error rt)
         else if pending_tool_calls (last messages) = [] then Inr messages
         else (case tool_node run_tool (pending_tool_calls (last messages)) of
                 Inl e \<Rightarrow> Inl e
               | Inr results \<Rightarrow>
                   if step + 2 > recursion_limit rt then Inl (recursion_error rt)
                   else app_loop rt SYSTEM_PROMPT llm_with_tools run_tool (step + 2)
                          (messages @ results)))"
  by pat_completeness auto
termination
  by (relation "measure (\<lambda>(rt, P, llm, run_tool, step, messages). recursion_limit rt - step)")
     auto

declare app_loop.simps [simp del]

definition app_invoke ::
  "graph_runtime \<Rightarrow> string \<Rightarrow> (message list \<Rightarrow> string + string \<times> tool_call list)
     \<Rightarrow> (tool_call \<Rightarrow> string + string) \<Rightarrow> message list \<Rightarrow> string + message list" where
  "app_invoke rt SYSTEM_PROMPT llm_with_tools run_tool messages =
     (if recursion_limit rt < 1 then Inl (limit_error rt)
      else app_loop rt SYSTEM_PROMPT llm_with_tools run_tool 1 messages)"

text \<open>\<open>str\<close> is \<^verbatim>\<open>str\<close> on a message that is not an assistant message.\<close>

definition generate_trip_plan ::
  "graph_runtime \<Rightarrow> string \<Rightarrow> (message list \<Rightarrow> string + string \<times> tool_call list)
     \<Rightarrow> (tool_call \<Rightarrow> string + string) \<Rightarrow> (message \<Rightarrow> string) \<Rightarrow> string \<Rightarrow> string" where
  "generate_trip_plan rt SYSTEM_PROMPT llm_with_tools run_tool str query =
     (case app_invoke rt SYSTEM_PROMPT llm_with_tools run_tool [HumanMessage query] of
        Inl e \<Rightarrow> ''Error: Unable to generate trip plan. '' @ e
      | Inr messages \<Rightarrow>
          (case last messages of AIMessage content _ \<Rightarrow> content | m \<Rightarrow> str m))"

text \<open>
  \<open>model_turn \<dots> start n\<close> is the conversation with which the agent node is entered
  for the \<open>n\<close>-th time after the first (model turn \<open>n + 1\<close>), when the model has asked
  for tools in every turn before and every tool has returned; the recursion limit is not
  looked at here.
\<close>

fun model_turn ::
  "string \<Rightarrow> (message list \<Rightarrow> string + string \<times> tool_call list) \<Rightarrow> (tool_call \<Rightarrow> string + string)
     \<Rightarrow> message list \<Rightarrow> nat \<Rightarrow> message list option" where
  "model_turn P llm run_tool start 0 = Some start"
| "model_turn P llm run_tool start (Suc n) =
     (case model_turn P llm run_tool start n of
        None \<Rightarrow> None
      | Some messages \<Rightarrow>
          (let messages = messages @ agent_node P llm messages
           in if pending_tool_calls (last messages) \<noteq> []
              then (case tool_node run_tool (pending_tool_calls (last messages)) of
                      Inl e \<Rightarrow> None
                    | Inr results \<Rightarrow> Some (messages @ results))
              else None))"

definition with_system_prompt :: "string \<Rightarrow> message list \<Rightarrow> message list" where
  "with_system_prompt P messages =
     (if messages = [] \<or> \<not> is_system (hd messages) then SystemMessage P # messages else messages)"

section \<open>Properties of the string primitives\<close>

lemma py_isspace_lower_char: "py_isspace (lower_char c) = py_isspace c"
  unfolding py_isspace_def lower_char_def Let_def by auto

lemma dropWhile_isspace_lower:
  "dropWhile py_isspace (map lower_char s) = map lower_char (dropWhile py_isspace s)"
  by (induction s) (simp_all add: py_isspace_lower_char)

lemma py_strip_lower: "py_strip (py_lower s) = py_lower (py_strip s)"
  by (simp add: py_strip_def py_lower_def dropWhile_isspace_lower rev_map)

section \<open>Counts of travellers and days\<close>

text \<open>
  C4. An integer number of travellers below 1 or above 50 is refused, each side with
  its own message, and so is an integer number of days below 1 or above 365; every
  integer in between is accepted, the bounds 1, 50 and 1, 365 included.
\<close>

theorem count_bounds:
  "(p < 1 \<longrightarrow>
      validate_people_count (PyInt p) = Inl (ValidationError ''At least 1 traveler is required''))
   \<and> (50 < p \<longrightarrow>
      validate_people_count (PyInt p) = Inl (ValidationError ''Maximum 50 travelers allowed''))
   \<and> (1 \<le> p \<and> p \<le> 50 \<longrightarrow> validate_people_count (PyInt p) = Inr True)
   \<and> (d < 1 \<longrightarrow>
      validate_days (PyInt d) = Inl (ValidationError ''Trip must be at least 1 day''))
   \<and> (365 < d \<longrightarrow>
      validate_days (PyInt d) = Inl (ValidationError ''Maximum trip duration is 365 days''))
   \<and> (1 \<le> d \<and> d \<le> 365 \<longrightarrow> validate_days (PyInt d) = Inr True)
   \<and> validate_people_count (PyInt 1) = Inr True
   \<and> validate_people_count (PyInt 50) = Inr True
   \<and> validate_days (PyInt 1) = Inr True
   \<and> validate_days (PyInt 365) = Inr True"
  by simp

theorem count_bounds_witness:
  "validate_people_count (PyInt 51) = Inl (ValidationError ''Maximum 50 travelers allowed'')
   \<and> validate_people_count (PyInt 0) = Inl (ValidationError ''At least 1 traveler is required'')
   \<and> validate_people_count (PyInt 7) = Inr True
   \<and> validate_days (PyInt 0) = Inl (ValidationError ''Trip must be at least 1 day'')
   \<and> validate_days (PyInt 366) = Inl (ValidationError ''Maximum trip duration is 365 days'')
   \<and> validate_days (PyInt 14) = Inr True"
  using count_bounds [of 51 0] count_bounds [of 0 366] count_bounds [of 7 14] by simp

section \<open>Departure and destination\<close>

text \<open>
  C5. When departure and destination are equal once whitespace is trimmed and the
  case lowered, the same-location check fails and its message contains
  ``cannot be the same''; when they differ after that normalisation it succeeds.
  The code lowers first and trims second; the two orders give the same string.
\<close>

theorem same_location_check:
  "(py_lower (py_strip a) = py_lower (py_strip b) \<longrightarrow>
      (\<exists>msg. validate_same_location a b = Inl (ValidationError msg)
         \<and> py_contains ''cannot be the same'' msg))
   \<and> (py_lower (py_strip a) \<noteq> py_lower (py_strip b) \<longrightarrow>
      validate_same_location a b = Inr True)"
proof -
  have "py_contains ''cannot be the same'' ''Departure and destination cannot be the same''"
    by code_simp
  then show ?thesis
    by (simp add: validate_same_location_def py_strip_lower)
qed

theorem same_location_check_witness:
  "(\<exists>msg. validate_same_location '' Paris'' ''PARIS  '' = Inl (ValidationError msg)
      \<and> py_contains ''cannot be the same'' msg)
   \<and> validate_same_location ''Paris'' ''Lyon'' = Inr True"
proof -
  have eq: "py_lower (py_strip '' Paris'') = py_lower (py_strip ''PARIS  '')"
    by code_simp
  have ne: "py_lower (py_strip ''Paris'') \<noteq> py_lower (py_strip ''Lyon'')"
    by code_simp
  from same_location_check [of "'' Paris''" "''PARIS  ''"] eq
    same_location_check [of "''Paris''" "''Lyon''"] ne
  show ?thesis by blast
qed

section \<open>Tags and the two substitutions\<close>

lemma set_re_sub_tags: "set (re_sub_tags s) \<subseteq> set s"
proof (induction s rule: re_sub_tags.induct)
  case 1
  then show ?case by simp
next
  case (2 c cs)
  show ?case
  proof (cases "c = CHR ''<'' \<and> takeWhile (\<lambda>x. x \<noteq> CHR ''>'') cs \<noteq> []
                 \<and> dropWhile (\<lambda>x. x \<noteq> CHR ''>'') cs \<noteq> []")
    case True
    with 2(1) have "set (re_sub_tags (tl (dropWhile (\<lambda>x. x \<noteq> CHR ''>'') cs)))
        \<subseteq> set (tl (dropWhile (\<lambda>x. x \<noteq> CHR ''>'') cs))" by simp
    also have "\<dots> \<subseteq> set cs"
    proof -
      have "set (tl xs) \<subseteq> set xs" for xs :: string by (cases xs) auto
      then show ?thesis by (blast dest: set_dropWhileD)
    qed
    finally show ?thesis using True by (auto simp: Let_def)
  next
    case False
    with 2(2) show ?thesis by (auto simp: Let_def)
  qed
qed

lemma tag_at_iff:
  "tag_at s \<longleftrightarrow> (\<exists>body post. s = CHR ''<'' # body @ CHR ''>'' # post \<and> body \<noteq> []
                      \<and> CHR ''>'' \<notin> set body)"
proof
  assume "tag_at s"
  then obtain cs where s: "s = CHR ''<'' # cs"
    and b: "takeWhile (\<lambda>x. x \<noteq> CHR ''>'') cs \<noteq> []"
    and r: "dropWhile (\<lambda>x. x \<noteq> CHR ''>'') cs \<noteq> []"
    by (auto simp: tag_at_def split: list.splits)
  from r have "hd (dropWhile (\<lambda>x. x \<noteq> CHR ''>'') cs) = CHR ''>''"
    using hd_dropWhile [of "\<lambda>x. x \<noteq> CHR ''>''" cs] by simp
  with r have "dropWhile (\<lambda>x. x \<noteq> CHR ''>'') cs = CHR ''>'' # tl (dropWhile (\<lambda>x. x \<noteq> CHR ''>'') cs)"
    by (metis list.collapse)
  then have "cs = takeWhile (\<lambda>x. x \<noteq> CHR ''>'') cs @ CHR ''>'' # tl (dropWhile (\<lambda>x. x \<noteq> CHR ''>'') cs)"
    by (metis takeWhile_dropWhile_id)
  moreover have "CHR ''>'' \<notin> set (takeWhile (\<lambda>x. x \<noteq> CHR ''>'') cs)"
    by (auto dest: set_takeWhileD)
  ultimately show "\<exists>body post. s = CHR ''<'' # body @ CHR ''>'' # post \<and> body \<noteq> []
                      \<and> CHR ''>'' \<notin> set body"
    using s b by blast
next
  assume "\<exists>body post. s = CHR ''<'' # body @ CHR ''>'' # post \<and> body \<noteq> []
                      \<and> CHR ''>'' \<notin> set body"
  then obtain body post where s: "s = CHR ''<'' # body @ CHR ''>'' # post"
    and b: "body \<noteq> []" and n: "CHR ''>'' \<notin> set body" by blast
  from n have nb: "\<forall>x\<in>set body. x \<noteq> CHR ''>''" by blast
  then have "takeWhile (\<lambda>x. x \<noteq> CHR ''>'') (body @ CHR ''>'' # post) = body"
    by (induction body) simp_all
  moreover from nb have "dropWhile (\<lambda>x. x \<noteq> CHR ''>'') (body @ CHR ''>'' # post) = CHR ''>'' # post"
    by (induction body) simp_all
  ultimately show "tag_at s" using s b by (simp add: tag_at_def)
qed

lemma has_tag_iff:
  "has_tag s \<longleftrightarrow> (\<exists>pre u. s = pre @ u \<and> tag_at u)"
proof (induction s)
  case Nil
  then show ?case by (simp add: tag_at_def)
next
  case (Cons c cs)
  show ?case
  proof
    assume "has_tag (c # cs)"
    then consider "tag_at (c # cs)" | "has_tag cs" by auto
    then show "\<exists>pre u. c # cs = pre @ u \<and> tag_at u"
    proof cases
      case 1
      then show ?thesis by (metis append_Nil)
    next
      case 2
      with Cons obtain pre u where "cs = pre @ u" "tag_at u" by blast
      then show ?thesis by (metis append_Cons)
    qed
  next
    assume "\<exists>pre u. c # cs = pre @ u \<and> tag_at u"
    then obtain pre u where pu: "c # cs = pre @ u" and t: "tag_at u" by blast
    show "has_tag (c # cs)"
    proof (cases pre)
      case Nil
      with pu t show ?thesis by (metis append_Nil has_tag.simps(2))
    next
      case (Cons a pre')
      with pu have "cs = pre' @ u" by simp
      with t Cons.IH show ?thesis by auto
    qed
  qed
qed

lemma no_tag_re_sub_tags: "\<not> has_tag (re_sub_tags s)"
proof (induction s rule: re_sub_tags.induct)
  case 1
  then show ?case by simp
next
  case (2 c cs)
  let ?body = "takeWhile (\<lambda>x. x \<noteq> CHR ''>'') cs"
  let ?rest = "dropWhile (\<lambda>x. x \<noteq> CHR ''>'') cs"
  show ?case
  proof (cases "c = CHR ''<'' \<and> ?body \<noteq> [] \<and> ?rest \<noteq> []")
    case True
    with 2(1) show ?thesis by (simp add: Let_def)
  next
    case False
    with 2(2) have ih: "\<not> has_tag (re_sub_tags cs)" by simp
    have eq: "re_sub_tags (c # cs) = c # re_sub_tags cs"
      using False by (auto simp: Let_def)
    have "\<not> tag_at (c # re_sub_tags cs)"
    proof
      assume t: "tag_at (c # re_sub_tags cs)"
      then have c: "c = CHR ''<''" by (simp add: tag_at_def)
      from t have gt: "CHR ''>'' \<in> set (re_sub_tags cs)"
        by (auto simp: tag_at_def dest: set_dropWhileD hd_in_set
            simp: hd_dropWhile dropWhile_eq_Nil_conv)
      then have "CHR ''>'' \<in> set cs" using set_re_sub_tags by blast
      then have r: "?rest \<noteq> []" by (auto simp: dropWhile_eq_Nil_conv)
      with c False have "?body = []" by simp
      then have "hd cs = CHR ''>''" and "cs \<noteq> []"
        using r by (auto simp: takeWhile_eq_Nil_iff)
      then obtain cs' where cs: "cs = CHR ''>'' # cs'" by (cases cs) auto
      then have "re_sub_tags cs = CHR ''>'' # re_sub_tags cs'" by (simp add: Let_def)
      with t show False by (simp add: tag_at_def)
    qed
    with ih eq show ?thesis by simp
  qed
qed


lemma tag_at_append: "tag_at u \<Longrightarrow> tag_at (u @ b)"
  unfolding tag_at_iff by (metis append_Cons append_assoc)

lemma has_tag_substring: "has_tag u \<Longrightarrow> has_tag (a @ u @ b)"
proof -
  assume "has_tag u"
  then obtain pre u' where "u = pre @ u'" "tag_at u'"
    unfolding has_tag_iff by blast
  then have "a @ u @ b = (a @ pre) @ (u' @ b)" "tag_at (u' @ b)"
    by (simp_all add: tag_at_append)
  then show ?thesis unfolding has_tag_iff by blast
qed

lemma py_strip_substring:
  "\<exists>a b. s = a @ py_strip s @ b"
proof -
  let ?d = "dropWhile py_isspace s"
  have "?d = py_strip s @ rev (takeWhile py_isspace (rev ?d))"
    unfolding py_strip_def by (metis rev_append rev_rev_ident takeWhile_dropWhile_id)
  moreover have "s = takeWhile py_isspace s @ ?d" by simp
  ultimately show ?thesis by metis
qed

lemma no_tag_py_strip: "\<not> has_tag s \<Longrightarrow> \<not> has_tag (py_strip s)"
  using py_strip_substring [of s] has_tag_substring by metis

lemma no_tag_take: "\<not> has_tag s \<Longrightarrow> \<not> has_tag (take n s)"
  using has_tag_substring [of "take n s" "[]" "drop n s"] by auto

lemma no_tag_drop: "\<not> has_tag s \<Longrightarrow> \<not> has_tag (drop n s)"
  using has_tag_substring [of "drop n s" "take n s" "[]"] by auto

lemma no_tag_plain: "CHR ''<'' \<notin> set e \<Longrightarrow> \<not> has_tag e"
  by (induction e) (auto simp: tag_at_def)

lemma has_tag_append_plain:
  "CHR ''<'' \<notin> set e \<Longrightarrow> CHR ''>'' \<notin> set e \<Longrightarrow> has_tag (s @ e) = has_tag s"
proof (induction s)
  case Nil
  then show ?case by (simp add: no_tag_plain)
next
  case (Cons c cs)
  have "tag_at (c # cs @ e) = tag_at (c # cs)"
    using Cons.prems(2)
    by (cases cs) (auto simp: tag_at_def dropWhile_eq_Nil_conv takeWhile_eq_Nil_iff)
  with Cons show ?case by simp
qed

lemma trimmed_py_strip: "trimmed (py_strip s)"
proof (cases "py_strip s = []")
  case True
  then show ?thesis by (simp add: trimmed_def)
next
  case False
  let ?d = "dropWhile py_isspace s"
  let ?e = "dropWhile py_isspace (rev ?d)"
  from False have e: "?e \<noteq> []" by (simp add: py_strip_def)
  have d: "?d \<noteq> []"
  proof
    assume a: "?d = []"
    have "?e = []" unfolding a by simp
    with e show False by simp
  qed
  have "last (py_strip s) = hd ?e"
    using e by (simp add: py_strip_def last_rev)
  moreover have "\<not> py_isspace (hd ?e)" using e hd_dropWhile by blast
  moreover have "hd (py_strip s) = last ?e"
    using e by (simp add: py_strip_def hd_rev)
  moreover have "last ?e = last (rev ?d)"
    using e by (metis last_appendR takeWhile_dropWhile_id)
  moreover have "last (rev ?d) = hd ?d" using d by (simp add: last_rev)
  moreover have "\<not> py_isspace (hd ?d)" using d hd_dropWhile by blast
  ultimately show ?thesis by (simp add: trimmed_def)
qed

lemma of_char_lower_char:
  "(of_char (lower_char c) :: nat) =
     (if (65 \<le> (of_char c :: nat) \<and> (of_char c :: nat) \<le> 90)
         \<or> (192 \<le> (of_char c :: nat) \<and> (of_char c :: nat) \<le> 222 \<and> (of_char c :: nat) \<noteq> 215)
      then of_char c + 32 else of_char c)"
  by (auto simp: lower_char_def Let_def)

lemma lower_char_lt: "lower_char c = CHR ''<'' \<Longrightarrow> c = CHR ''<''"
proof -
  assume "lower_char c = CHR ''<''"
  then have "(of_char (lower_char c) :: nat) = of_char CHR ''<''" by simp
  then have "(of_char c :: nat) = of_char CHR ''<''"
    unfolding of_char_lower_char by (simp split: if_splits)
  then show ?thesis by (simp only: of_char_eq_iff)
qed

lemma lower_char_gt: "lower_char c = CHR ''>'' \<Longrightarrow> c = CHR ''>''"
proof -
  assume "lower_char c = CHR ''>''"
  then have "(of_char (lower_char c) :: nat) = of_char CHR ''>''" by simp
  then have "(of_char c :: nat) = of_char CHR ''>''"
    unfolding of_char_lower_char by (simp split: if_splits)
  then show ?thesis by (simp only: of_char_eq_iff)
qed

lemma lower_char_slash: "lower_char c = CHR ''/'' \<Longrightarrow> c = CHR ''/''"
proof -
  assume "lower_char c = CHR ''/''"
  then have "(of_char (lower_char c) :: nat) = of_char CHR ''/''" by simp
  then have "(of_char c :: nat) = of_char CHR ''/''"
    unfolding of_char_lower_char by (simp split: if_splits)
  then show ?thesis by (simp only: of_char_eq_iff)
qed

lemma close_tag_is_tag:
  assumes "ci_prefix ''</script>'' u"
  shows "tag_at u"
proof -
  define n where "n = length ''</script>''"
  from assms have m: "map lower_char (take n u) = ''</script>''"
    by (simp add: ci_prefix_def n_def)
  then obtain c1 c2 c3 c4 c5 c6 c7 c8 c9 where
    t: "take n u = [c1, c2, c3, c4, c5, c6, c7, c8, c9]"
    and l: "lower_char c1 = CHR ''<''" "lower_char c2 = CHR ''/''" "lower_char c9 = CHR ''>''"
    by (auto simp: map_eq_Cons_conv)
  have "u = take n u @ drop n u" by simp
  with t have u: "u = c1 # c2 # [c3, c4, c5, c6, c7, c8, c9] @ drop n u" by simp
  from l have "c1 = CHR ''<''" "c2 = CHR ''/''" "c9 = CHR ''>''"
    by (simp_all add: lower_char_lt lower_char_gt lower_char_slash)
  then show ?thesis
    by (subst u) (simp add: tag_at_def dropWhile_eq_Nil_conv)
qed

lemma after_first_has_tag: "after_first ''</script>'' s = Some r \<Longrightarrow> has_tag s"
  by (induction s) (auto split: if_splits dest: close_tag_is_tag)

lemma re_sub_script_no_tag: "\<not> has_tag s \<Longrightarrow> re_sub_script s = s"
proof (induction s)
  case Nil
  then show ?case by simp
next
  case (Cons c cs)
  then have ih: "re_sub_script cs = cs" by simp
  have "after_first ''</script>'' (drop 7 (c # cs)) = None"
    using after_first_has_tag no_tag_drop Cons.prems by (metis not_Some_eq)
  with ih show ?case by simp
qed



lemma re_sub_tags_plain: "CHR ''<'' \<notin> set s \<Longrightarrow> re_sub_tags s = s"
  by (induction s) (auto simp: Let_def)

lemma py_strip_trimmed: "trimmed s \<Longrightarrow> py_strip s = s"
proof (cases s)
  case Nil
  then show ?thesis by (simp add: py_strip_def)
next
  case (Cons c cs)
  assume "trimmed s"
  with Cons have h: "\<not> py_isspace c" and l: "\<not> py_isspace (last (c # cs))"
    by (simp_all add: trimmed_def)
  from l have "\<not> py_isspace (hd (rev (c # cs)))" by (metis hd_rev)
  then have "dropWhile py_isspace (rev (c # cs)) = rev (c # cs)"
    by (metis dropWhile_eq_self_iff)
  with h Cons show ?thesis by (simp add: py_strip_def)
qed

section \<open>Sanitising free text\<close>

lemma sanitize_text_input_eq:
  "sanitize_text_input text max_length =
     (if text = [] then []
      else if max_length < int (length (py_strip (re_sub_tags text)))
      then py_slice_to (py_strip (re_sub_tags text)) max_length @ ''...''
      else py_strip (re_sub_tags text))"
  by (simp add: sanitize_text_input_def Let_def re_sub_script_no_tag no_tag_re_sub_tags)

lemma script_content_kept:
  "sanitize_text_input ''<script>alert(1)</script>'' 1000 = ''alert(1)''"
  by code_simp

text \<open>
  C6, as the code has it. For every input string and every maximum length that is not
  negative, \<open>sanitize_text_input\<close> returns a string (it has no failing branch): with
  \<open>t\<close> the input after every match of \<^verbatim>\<open><[^>]+>\<close> is removed and the ends are
  trimmed, it returns \<open>t\<close> when \<open>t\<close> is no longer than the maximum, and otherwise the
  first \<open>max_length\<close> characters of \<open>t\<close> followed by \<open>...\<close>; neither \<open>t\<close> nor the
  result holds a tag. The default maximum is 500.
\<close>

theorem sanitize_text_input_spec:
  assumes "0 \<le> max_length"
  shows "\<exists>t. t = py_strip (re_sub_tags text) \<and> \<not> has_tag t \<and> trimmed t
     \<and> sanitize_text_input text max_length =
         (if int (length t) \<le> max_length then t else take (nat max_length) t @ ''...'')
     \<and> \<not> has_tag (sanitize_text_input text max_length)
     \<and> sanitize_text_input_default text = sanitize_text_input text 500"
proof -
  let ?t = "py_strip (re_sub_tags text)"
  have nt: "\<not> has_tag ?t"
    by (simp add: no_tag_py_strip no_tag_re_sub_tags)
  have eq: "sanitize_text_input text max_length =
         (if int (length ?t) \<le> max_length then ?t else take (nat max_length) ?t @ ''...'')"
  proof (cases "text = []")
    case True
    with assms show ?thesis by (simp add: sanitize_text_input_eq py_strip_def)
  next
    case False
    with assms show ?thesis by (simp add: sanitize_text_input_eq py_slice_to_def)
  qed
  have "\<not> has_tag (take (nat max_length) ?t @ ''...'')"
    using nt by (simp add: has_tag_append_plain no_tag_take)
  with nt eq have "\<not> has_tag (sanitize_text_input text max_length)" by simp
  with nt eq show ?thesis
    by (simp add: trimmed_py_strip sanitize_text_input_default_def)
qed

theorem sanitize_text_input_spec_witness:
  "sanitize_text_input '' <b>Hello</b> world '' 5 = ''Hello...''
   \<and> sanitize_text_input '' <i>ok</i> '' 5 = ''ok''"
proof -
  have a: "py_strip (re_sub_tags '' <b>Hello</b> world '') = ''Hello world''" by code_simp
  have b: "py_strip (re_sub_tags '' <i>ok</i> '') = ''ok''" by code_simp
  have c: "(0::int) \<le> 5" by simp
  from sanitize_text_input_spec [OF c, of "'' <b>Hello</b> world ''"]
  have "sanitize_text_input '' <b>Hello</b> world '' 5 = ''Hello...''"
    unfolding a by simp
  moreover from sanitize_text_input_spec [OF c, of "'' <i>ok</i> ''"]
  have "sanitize_text_input '' <i>ok</i> '' 5 = ''ok''"
    unfolding a b by simp
  ultimately show ?thesis by simp
qed

text \<open>
  A string of 501 letters is cut to 500 by the call without \<^verbatim>\<open>max_length\<close>: the
  default is not 1000. With a negative maximum the marker is appended to a string from
  which nothing was cut.
\<close>

theorem sanitize_default_counterexample:
  "sanitize_text_input_default (replicate 501 (CHR ''a'')) = replicate 500 (CHR ''a'') @ ''...''
   \<and> sanitize_text_input_default (replicate 501 (CHR ''a'')) \<noteq> replicate 501 (CHR ''a'')
   \<and> sanitize_text_input '' '' (- 1) = ''...''"
proof -
  let ?s = "replicate 501 (CHR ''a'')"
  have t: "re_sub_tags ?s = ?s" by (rule re_sub_tags_plain) simp
  have "trimmed ?s" by (simp add: trimmed_def py_isspace_def)
  then have p: "py_strip ?s = ?s" by (rule py_strip_trimmed)
  have r: "sanitize_text_input_default ?s = take 500 ?s @ ''...''"
    by (simp add: sanitize_text_input_default_def sanitize_text_input_eq t p py_slice_to_def)
  have "length (sanitize_text_input_default ?s) = 503" unfolding r by simp
  then have "sanitize_text_input_default ?s \<noteq> ?s" by auto
  moreover have "sanitize_text_input '' '' (- 1) = ''...''" by code_simp
  ultimately show ?thesis using r by simp
qed

section \<open>The composite validator\<close>

lemma collect_failure: "collect errors r = errors @ failure r"
  by (simp add: collect_def failure_def split: sum.splits error.splits)

text \<open>
  C3, as the code has it. The composite validator runs the location check on departure
  and on destination, the same-location check when both locations are present and
  non-empty, the people check and the days check; it collects the message of every check
  that fails, whatever the earlier checks did. When a check failed it raises with the
  messages joined by line breaks, and otherwise it returns the bundle; in both cases the
  notes of the bundle, when present, have been sanitised with maximum length 1000.
\<close>

theorem composite_collects_every_failure:
  "validate_complete_trip_input trip_data =
     (sanitize_notes trip_data,
      if failure_messages trip_data = [] then Inr (sanitize_notes trip_data)
      else Inl (ValidationError (py_join [CHR 0x0A] (failure_messages trip_data))))"
  by (cases "trip_data.from_city trip_data"; cases "trip_data.to_city trip_data")
     (simp_all add: validate_complete_trip_input_def failure_messages_def collect_failure
        dict_get_def Let_def)

theorem composite_collects_every_failure_witness:
  "validate_complete_trip_input
     \<lparr>trip_data.from_city = Some '' Rome'', to_city = Some ''rome '',
      people = None, days = Some (PyInt 3), notes_text = Some '' <b>x</b> ''\<rparr>
   = (\<lparr>trip_data.from_city = Some '' Rome'', to_city = Some ''rome '',
      people = None, days = Some (PyInt 3), notes_text = Some ''x''\<rparr>,
      Inl (ValidationError (''Departure and destination cannot be the same'' @ [CHR 0x0A]
             @ ''At least 1 traveler is required'')))"
proof -
  have n: "sanitize_text_input '' <b>x</b> '' 1000 = ''x''" by code_simp
  have m: "failure_messages \<lparr>trip_data.from_city = Some '' Rome'', to_city = Some ''rome '',
      people = None, days = Some (PyInt 3), notes_text = Some '' <b>x</b> ''\<rparr>
    = [''Departure and destination cannot be the same'', ''At least 1 traveler is required'']"
    by code_simp
  show ?thesis
    using composite_collects_every_failure [of "\<lparr>trip_data.from_city = Some '' Rome'', to_city = Some ''rome '',
      people = None, days = Some (PyInt 3), notes_text = Some '' <b>x</b> ''\<rparr>"]
    by (simp add: n m sanitize_notes_def)
qed


text \<open>
  On a bundle whose two locations are empty strings the same-location check would fail,
  and its message is not among the collected ones: the check is not run.
\<close>

theorem composite_same_location_counterexample:
  "validate_same_location [] [] =
      Inl (ValidationError ''Departure and destination cannot be the same'')
   \<and> snd (validate_complete_trip_input
        \<lparr>trip_data.from_city = Some [], to_city = Some [],
         people = Some (PyInt 2), days = Some (PyInt 3), notes_text = None\<rparr>)
     = Inl (ValidationError
        (''Departure location cannot be empty'' @ [CHR 0x0A] @ ''Destination cannot be empty''))"
  by (simp add: validate_same_location_def validate_complete_trip_input_def collect_def
        validate_location_def dict_get_def sanitize_notes_def py_strip_def py_lower_def)



section \<open>The trip archive\<close>

lemma map_from_dict [simp]: "map from_dict xs = xs"
  by (induction xs) simp_all

lemma map_option_from_dict [simp]: "map_option from_dict x = x"
  by (cases x) simp_all

lemma read_write_data:
  "write_data st data = (st', True) \<Longrightarrow> readable st \<Longrightarrow>
     read_data st' = data \<and> writable st' \<and> readable st'"
  by (auto simp: write_data_def read_data_def split: if_splits)

lemma find_append_fresh:
  "find P xs = None \<Longrightarrow> P x \<Longrightarrow> find P (xs @ [x]) = Some x"
  by (induction xs) (auto split: if_splits)

lemma find_filter_not: "find P (filter (\<lambda>x. \<not> P x) xs) = None"
  by (induction xs) auto

lemma py_sort_reverse_mset: "mset (py_sort_reverse key xs) = mset xs"
  by (simp add: py_sort_reverse_def)

lemma py_sort_reverse_sorted: "sorted (rev (map key (py_sort_reverse key xs)))"
  by (simp add: py_sort_reverse_def rev_map)

text \<open>
  C2, as the code has it. Let the backing file be readable. When \<open>save_trip\<close>
  returns an id, that id is the one made from the clock; if no record with that id was
  in the archive before, \<open>get_trip\<close> of the id returns the record that was saved, equal
  in every field; \<open>delete_trip\<close> of the id then succeeds and \<open>get_trip\<close> of the id
  returns nothing afterwards. When \<open>clear_all\<close> succeeds, \<open>get_all_trips\<close> returns
  the empty list, whatever the limit and whatever the file was.
\<close>

theorem archive_round_trip:
  assumes "save_trip st now_id now_iso f t d p g plan = (st', Some i)"
      and "readable st"
  shows "i = now_id
     \<and> (get_trip st now_id = None \<longrightarrow>
          get_trip st' i = Some \<lparr>trip_id = now_id, timestamp = now_iso, from_city = f,
             to_city = t, days = d, people = p, group_type = g, trip_plan = plan\<rparr>)
     \<and> snd (delete_trip st' i)
     \<and> get_trip (fst (delete_trip st' i)) i = None
     \<and> (snd (clear_all st2) \<longrightarrow> get_all_trips (fst (clear_all st2)) limit = [])"
proof -
  let ?r = "\<lparr>trip_id = now_id, timestamp = now_iso, from_city = f,
             to_city = t, days = d, people = p, group_type = g, trip_plan = plan\<rparr>"
  from assms(1) have w: "write_data st (read_data st @ [?r]) = (st', True)" and i: "i = now_id"
    by (auto simp: save_trip_def Let_def split: prod.splits bool.splits)
  from read_write_data [OF w assms(2)]
  have rd: "read_data st' = read_data st @ [?r]" and wr: "writable st'" and re: "readable st'"
    by simp_all
  have g: "get_trip st now_id = None \<longrightarrow> get_trip st' i = Some ?r"
    by (simp add: get_trip_def rd i find_append_fresh)
  let ?kept = "filter (\<lambda>record. trip_id record \<noteq> i) (read_data st')"
  have "length ?kept < length (read_data st')"
    unfolding rd i by (simp add: less_Suc_eq_le)
  then have del: "delete_trip st' i = (st'\<lparr>backing_file := Decoded ?kept\<rparr>, True)"
    using wr by (simp add: delete_trip_def Let_def write_data_def)
  have gd: "get_trip (fst (delete_trip st' i)) i = None"
    unfolding del using find_filter_not [of "\<lambda>record. trip_id record = i" "read_data st'"] re
    by (simp add: get_trip_def read_data_def)
  have cl: "snd (clear_all st2) \<longrightarrow> get_all_trips (fst (clear_all st2)) limit = []"
    by (auto simp: clear_all_def write_data_def get_all_trips_def read_data_def
          py_sort_reverse_def py_slice_to_def split: option.splits)
  from i g del gd cl show ?thesis by simp
qed

theorem archive_round_trip_witness:
  "get_trip \<lparr>backing_file = Decoded [\<lparr>trip_id = ''20240101_120000'',
        timestamp = ''2024-01-01T12:00:00.100000'', from_city = ''Paris'', to_city = ''Rome'',
        days = 3, people = 2, group_type = ''Couple'', trip_plan = ''plan A''\<rparr>],
      readable = True, writable = True\<rparr> ''20240101_120000''
   = Some \<lparr>trip_id = ''20240101_120000'',
        timestamp = ''2024-01-01T12:00:00.100000'', from_city = ''Paris'', to_city = ''Rome'',
        days = 3, people = 2, group_type = ''Couple'', trip_plan = ''plan A''\<rparr>
   \<and> get_all_trips
        (fst (clear_all \<lparr>backing_file = Undecodable, readable = True, writable = True\<rparr>))
        (Some 5) = []"
proof -
  let ?r = "\<lparr>trip_id = ''20240101_120000'',
        timestamp = ''2024-01-01T12:00:00.100000'', from_city = ''Paris'', to_city = ''Rome'',
        days = 3, people = 2, group_type = ''Couple'', trip_plan = ''plan A''\<rparr>"
  have s: "save_trip \<lparr>backing_file = Missing, readable = True, writable = True\<rparr>
      ''20240101_120000'' ''2024-01-01T12:00:00.100000'' ''Paris'' ''Rome'' 3 2 ''Couple''
      ''plan A''
    = (\<lparr>backing_file = Decoded [?r], readable = True, writable = True\<rparr>,
       Some ''20240101_120000'')"
    by (simp add: save_trip_def read_data_def write_data_def)
  have re: "readable \<lparr>backing_file = Missing, readable = True, writable = True\<rparr>"
    by simp
  have f: "get_trip \<lparr>backing_file = Missing, readable = True, writable = True\<rparr>
      ''20240101_120000'' = None"
    by (simp add: get_trip_def read_data_def)
  have c: "snd (clear_all \<lparr>backing_file = Undecodable, readable = True, writable = True\<rparr>)"
    by (simp add: clear_all_def write_data_def)
  from archive_round_trip [OF s re,
      of "\<lparr>backing_file = Undecodable, readable = True, writable = True\<rparr>" "Some 5"] f c
  show ?thesis by simp
qed

text \<open>
  Two saves within the same second get the same id, and \<open>get_trip\<close> of that id returns
  the first record, not the one saved last. On a file that can be written but not read,
  \<open>save_trip\<close> returns an id and \<open>get_trip\<close> of that id finds nothing. On a file that
  cannot be written, \<open>clear_all\<close> fails and the archive still lists its record.
\<close>

theorem archive_round_trip_counterexample:
  "snd (save_trip
          (fst (save_trip \<lparr>backing_file = Decoded [], readable = True, writable = True\<rparr>
                  ''20240101_120000'' ''2024-01-01T12:00:00.100000'' ''Paris'' ''Rome'' 3 2
                  ''Couple'' ''plan A''))
          ''20240101_120000'' ''2024-01-01T12:00:00.900000'' ''Oslo'' ''Bergen'' 5 1 ''Solo''
          ''plan B'')
     = Some ''20240101_120000''
   \<and> get_trip
        (fst (save_trip
          (fst (save_trip \<lparr>backing_file = Decoded [], readable = True, writable = True\<rparr>
                  ''20240101_120000'' ''2024-01-01T12:00:00.100000'' ''Paris'' ''Rome'' 3 2
                  ''Couple'' ''plan A''))
          ''20240101_120000'' ''2024-01-01T12:00:00.900000'' ''Oslo'' ''Bergen'' 5 1 ''Solo''
          ''plan B''))
        ''20240101_120000''
     = Some \<lparr>trip_id = ''20240101_120000'', timestamp = ''2024-01-01T12:00:00.100000'',
          from_city = ''Paris'', to_city = ''Rome'', days = 3, people = 2,
          group_type = ''Couple'', trip_plan = ''plan A''\<rparr>
   \<and> snd (save_trip \<lparr>backing_file = Decoded [], readable = False, writable = True\<rparr>
          ''20240101_120000'' ''2024-01-01T12:00:00.100000'' ''Paris'' ''Rome'' 3 2
          ''Couple'' ''plan A'')
     = Some ''20240101_120000''
   \<and> get_trip
        (fst (save_trip \<lparr>backing_file = Decoded [], readable = False, writable = True\<rparr>
          ''20240101_120000'' ''2024-01-01T12:00:00.100000'' ''Paris'' ''Rome'' 3 2
          ''Couple'' ''plan A''))
        ''20240101_120000''
     = None
   \<and> get_all_trips
        (fst (clear_all \<lparr>backing_file = Decoded [\<lparr>trip_id = ''20240101_120000'',
            timestamp = ''2024-01-01T12:00:00.100000'', from_city = ''Paris'',
            to_city = ''Rome'', days = 3, people = 2, group_type = ''Couple'',
            trip_plan = ''plan A''\<rparr>], readable = True, writable = False\<rparr>)) None
     = [\<lparr>trip_id = ''20240101_120000'', timestamp = ''2024-01-01T12:00:00.100000'',
          from_city = ''Paris'', to_city = ''Rome'', days = 3, people = 2,
          group_type = ''Couple'', trip_plan = ''plan A''\<rparr>]"
  by (simp add: save_trip_def read_data_def write_data_def get_trip_def clear_all_def
        get_all_trips_def py_sort_reverse_def)

text \<open>
  C7. When the backing file holds content that cannot be decoded, \<open>get_all_trips\<close>
  returns the empty list and \<open>get_trip\<close> returns nothing; neither has a raising branch.
\<close>

theorem malformed_file_reads_empty:
  "backing_file st = Undecodable \<Longrightarrow> get_all_trips st limit = [] \<and> get_trip st i = None"
  by (simp add: get_all_trips_def get_trip_def read_data_def py_sort_reverse_def
        py_slice_to_def split: option.splits)

theorem malformed_file_reads_empty_witness:
  "get_all_trips \<lparr>backing_file = Undecodable, readable = True, writable = True\<rparr> (Some 50) = []
   \<and> get_trip \<lparr>backing_file = Undecodable, readable = True, writable = True\<rparr> ''20240101_120000'' = None"
  using malformed_file_reads_empty
    [of "\<lparr>backing_file = Undecodable, readable = True, writable = True\<rparr>" "Some 50" "''20240101_120000''"]
  by simp

text \<open>
  C10. \<open>get_all_trips\<close> with limit 0 returns what it returns without a limit: every
  record of the archive, as many as the archive holds, newest first.
\<close>

theorem limit_zero_returns_all:
  "get_all_trips st (Some 0) = get_all_trips st None
   \<and> mset (get_all_trips st (Some 0)) = mset (read_data st)
   \<and> length (get_all_trips st (Some 0)) = length (read_data st)
   \<and> sorted (rev (map timestamp (get_all_trips st (Some 0))))"
proof -
  have e: "get_all_trips st (Some 0) = py_sort_reverse timestamp (read_data st)"
    by (simp add: get_all_trips_def)
  have "length (py_sort_reverse timestamp (read_data st)) = length (read_data st)"
    by (simp add: py_sort_reverse_def)
  with e show ?thesis
    by (simp add: get_all_trips_def py_sort_reverse_mset py_sort_reverse_sorted)
qed


theorem limit_zero_returns_all_witness:
  "get_all_trips \<lparr>backing_file = Decoded
       [\<lparr>trip_id = ''a'', timestamp = ''2024-01-01T12:00:00'', from_city = ''Paris'',
          to_city = ''Rome'', days = 3, people = 2, group_type = ''Couple'', trip_plan = ''A''\<rparr>,
        \<lparr>trip_id = ''b'', timestamp = ''2024-03-01T12:00:00'', from_city = ''Oslo'',
          to_city = ''Bergen'', days = 5, people = 1, group_type = ''Solo'', trip_plan = ''B''\<rparr>],
     readable = True, writable = True\<rparr> (Some 0)
   = [\<lparr>trip_id = ''b'', timestamp = ''2024-03-01T12:00:00'', from_city = ''Oslo'',
          to_city = ''Bergen'', days = 5, people = 1, group_type = ''Solo'', trip_plan = ''B''\<rparr>,
      \<lparr>trip_id = ''a'', timestamp = ''2024-01-01T12:00:00'', from_city = ''Paris'',
          to_city = ''Rome'', days = 3, people = 2, group_type = ''Couple'', trip_plan = ''A''\<rparr>]"
proof -
  let ?st = "\<lparr>backing_file = Decoded
       [\<lparr>trip_id = ''a'', timestamp = ''2024-01-01T12:00:00'', from_city = ''Paris'',
          to_city = ''Rome'', days = 3, people = 2, group_type = ''Couple'', trip_plan = ''A''\<rparr>,
        \<lparr>trip_id = ''b'', timestamp = ''2024-03-01T12:00:00'', from_city = ''Oslo'',
          to_city = ''Bergen'', days = 5, people = 1, group_type = ''Solo'', trip_plan = ''B''\<rparr>],
     readable = True, writable = True\<rparr>"
  have "get_all_trips ?st None
    = [\<lparr>trip_id = ''b'', timestamp = ''2024-03-01T12:00:00'', from_city = ''Oslo'',
          to_city = ''Bergen'', days = 5, people = 1, group_type = ''Solo'', trip_plan = ''B''\<rparr>,
       \<lparr>trip_id = ''a'', timestamp = ''2024-01-01T12:00:00'', from_city = ''Paris'',
          to_city = ''Rome'', days = 3, people = 2, group_type = ''Couple'', trip_plan = ''A''\<rparr>]"
    by code_simp
  with limit_zero_returns_all [of ?st] show ?thesis by simp
qed

section \<open>The geocoder\<close>

lemma py_strip_empty_iff: "py_strip s = [] \<longleftrightarrow> (\<forall>c\<in>set s. py_isspace c)"
proof -
  let ?d = "dropWhile py_isspace s"
  have "(\<forall>x\<in>set ?d. py_isspace x) \<longleftrightarrow> ?d = []"
  proof
    assume a: "\<forall>x\<in>set ?d. py_isspace x"
    show "?d = []"
    proof (rule ccontr)
      assume n: "?d \<noteq> []"
      then have "\<not> py_isspace (hd ?d)" by (rule hd_dropWhile)
      with a n show False by (meson hd_in_set)
    qed
  next
    assume "?d = []"
    then show "\<forall>x\<in>set ?d. py_isspace x" by (metis empty_iff empty_set)
  qed
  then show ?thesis
    by (simp add: py_strip_def dropWhile_eq_Nil_conv)
qed

text \<open>
  C9. On a query that is empty or holds whitespace only, \<open>search\<close> returns the empty
  list and leaves the service and the world as they were: nothing is sent over the
  transport and the rate-limit clock is not touched. \<open>search\<close> has no raising branch.
\<close>

theorem search_blank_query:
  "\<forall>c\<in>set query. py_isspace c \<Longrightarrow>
     search http_get parse zero self w query = ([], self, w)
     \<and> requests (snd (snd (search http_get parse zero self w query))) = requests w"
  by (simp add: search_def py_strip_empty_iff)

theorem search_blank_query_witness:
  "search (\<lambda>q. Timeout) (\<lambda>s. None) (0::real)
      \<lparr>rate_limit_delay = 1, last_request_time = 0\<rparr> \<lparr>clock = 5, requests = []\<rparr> ''   ''
   = ([], \<lparr>rate_limit_delay = 1, last_request_time = 0\<rparr>, \<lparr>clock = 5, requests = []\<rparr>)"
proof -
  have "\<forall>c\<in>set ''   ''. py_isspace c" by (simp add: py_isspace_def)
  from search_blank_query [OF this, of "\<lambda>q. Timeout" "\<lambda>s. None" "0::real"
      "\<lparr>rate_limit_delay = 1, last_request_time = 0\<rparr>" "\<lparr>clock = 5, requests = []\<rparr>"]
  show ?thesis by simp
qed

text \<open>
  C8, as the code has it. For every raw result that \<open>from_nominatim\<close> turns into a
  location, the city is the first of the address fields \<open>city\<close>, \<open>town\<close>,
  \<open>village\<close>, in that order, that is present and not empty, and the \<open>village\<close> field
  as it is when none is; state and country are the address fields of those names,
  unchanged.
\<close>

theorem city_precedence:
  assumes "from_nominatim parse zero data = Inr loc"
  shows "(let a = dict_get (address data) Map.empty;
              truthy = (\<lambda>v. v \<noteq> None \<and> v \<noteq> Some [])
          in city loc = (if truthy (a ''city'') then a ''city''
                         else if truthy (a ''town'') then a ''town''
                         else a ''village'')
           \<and> state loc = a ''state'' \<and> country loc = a ''country'')"
  using assms
  by (auto simp: from_nominatim_def Let_def py_or_def split: sum.splits option.splits if_splits)

theorem city_precedence_witness:
  "from_nominatim (\<lambda>s. None) (0::real)
      \<lparr>address = Some [''town'' \<mapsto> ''Vernon'', ''country'' \<mapsto> ''France''],
       display_name = Some ''Vernon, France'', raw_lat = None, raw_lon = None\<rparr>
    = Inr \<lparr>name = ''Vernon, France'', label = ''Vernon, France'', lat = 0, lon = 0,
          city = Some ''Vernon'', state = None, country = Some ''France''\<rparr>
   \<and> city \<lparr>name = ''Vernon, France'', label = ''Vernon, France'', lat = (0::real), lon = 0,
          city = Some ''Vernon'', state = None, country = Some ''France''\<rparr>
     = [''town'' \<mapsto> ''Vernon'', ''country'' \<mapsto> ''France''] ''town''"
proof -
  have e: "from_nominatim (\<lambda>s. None) (0::real)
      \<lparr>address = Some [''town'' \<mapsto> ''Vernon'', ''country'' \<mapsto> ''France''],
       display_name = Some ''Vernon, France'', raw_lat = None, raw_lon = None\<rparr>
    = Inr \<lparr>name = ''Vernon, France'', label = ''Vernon, France'', lat = 0, lon = 0,
          city = Some ''Vernon'', state = None, country = Some ''France''\<rparr>"
    by (simp add: from_nominatim_def py_float_def py_or_def dict_get_def Let_def)
  from city_precedence [OF e] e show ?thesis
    by (simp add: dict_get_def)
qed

text \<open>
  With both a city and a town in the address, the location's city is the \<open>city\<close>
  field, not the \<open>town\<close> field.
\<close>

theorem city_precedence_counterexample:
  "from_nominatim (\<lambda>s. None) (0::real)
      \<lparr>address = Some [''city'' \<mapsto> ''Paris'', ''town'' \<mapsto> ''Montmartre''],
       display_name = Some ''Paris'', raw_lat = None, raw_lon = None\<rparr>
   = Inr \<lparr>name = ''Paris'', label = ''Paris'', lat = 0, lon = 0,
          city = Some ''Paris'', state = None, country = None\<rparr>"
  by (simp add: from_nominatim_def py_float_def py_or_def dict_get_def Let_def)

section \<open>The planner\<close>

lemma agent_node_raises:
  "llm (with_system_prompt P messages) = Inl e \<Longrightarrow>
     agent_node P llm messages = [AIMessage (agent_error_text e) []]"
  by (simp add: agent_node_def with_system_prompt_def Let_def)

lemma app_loop_raises:
  assumes "llm (with_system_prompt P messages) = Inl e"
  shows "app_loop rt P llm run_tool step messages =
     (if step + 1 \<le> recursion_limit rt
      then Inr (messages @ [AIMessage (agent_error_text e) []])
      else Inl (recursion_error rt))"
  by (subst app_loop.simps) (simp add: agent_node_raises [of llm P messages e, OF assms])

lemma app_loop_tools:
  assumes "pending_tool_calls (last (prev @ agent_node P llm prev)) \<noteq> []"
      and "tool_node run_tool (pending_tool_calls (last (prev @ agent_node P llm prev)))
             = Inr results"
  shows "app_loop rt P llm run_tool step prev =
     (if step + 2 \<le> recursion_limit rt
      then app_loop rt P llm run_tool (step + 2) ((prev @ agent_node P llm prev) @ results)
      else Inl (recursion_error rt))"
proof (cases "step + 2 \<le> recursion_limit rt")
  case True
  then have "\<not> recursion_limit rt < step + 1" "\<not> recursion_limit rt < step + 2" by simp_all
  then show ?thesis
    using True assms by (subst app_loop.simps) (simp only: Let_def if_False if_True sum.case)
next
  case False
  then have "recursion_limit rt < step + 1 \<or> recursion_limit rt < step + 2" by simp
  then show ?thesis
    using False assms
    by (subst app_loop.simps) (auto simp only: Let_def if_False if_True sum.case if_cancel)
qed

lemma app_loop_model_turn:
  "model_turn P llm run_tool start n = Some messages \<Longrightarrow>
     app_loop rt P llm run_tool 1 start =
       (if 2 * n + 1 \<le> recursion_limit rt then app_loop rt P llm run_tool (2 * n + 1) messages
        else Inl (recursion_error rt))"
proof (induction n arbitrary: messages)
  case 0
  then have s: "start = messages" by simp
  show ?case
  proof (cases "1 \<le> recursion_limit rt")
    case True
    with s show ?thesis by simp
  next
    case False
    then have "app_loop rt P llm run_tool 1 start = Inl (recursion_error rt)"
      by (subst app_loop.simps) (simp add: Let_def)
    with False show ?thesis by simp
  qed
next
  case (Suc n)
  from Suc.prems obtain prev where p: "model_turn P llm run_tool start n = Some prev"
    by (auto split: option.splits)
  let ?m = "prev @ agent_node P llm prev"
  from Suc.prems p have t: "pending_tool_calls (last ?m) \<noteq> []"
    and r: "tool_node run_tool (pending_tool_calls (last ?m)) = Inr (drop (length ?m) messages)"
    and m: "messages = ?m @ drop (length ?m) messages"
    by (auto simp: Let_def split: if_splits sum.splits)
  have e: "2 * Suc n + 1 = (2 * n + 1) + 2" by simp
  have step: "app_loop rt P llm run_tool (2 * n + 1) prev =
      (if 2 * Suc n + 1 \<le> recursion_limit rt
       then app_loop rt P llm run_tool (2 * Suc n + 1) messages
       else Inl (recursion_error rt))"
    unfolding e using app_loop_tools [OF t r, of rt "2 * n + 1"] m by metis
  have ih: "app_loop rt P llm run_tool 1 start =
      (if 2 * n + 1 \<le> recursion_limit rt then app_loop rt P llm run_tool (2 * n + 1) prev
       else Inl (recursion_error rt))"
    using Suc.IH [OF p] .
  show ?case
  proof (cases "2 * Suc n + 1 \<le> recursion_limit rt")
    case True
    then have "2 * n + 1 \<le> recursion_limit rt" by simp
    with ih step True show ?thesis by (simp only: if_True)
  next
    case False
    show ?thesis
    proof (cases "2 * n + 1 \<le> recursion_limit rt")
      case True
      with ih step False show ?thesis by (simp only: if_True if_False)
    next
      case f: False
      with ih False show ?thesis by (simp only: if_False)
    qed
  qed
qed

lemma generate_trip_plan_raises:
  assumes "model_turn P llm run_tool [HumanMessage query] n = Some messages"
      and "llm (with_system_prompt P messages) = Inl e"
  shows "generate_trip_plan rt P llm run_tool str query =
     (if 2 * (n + 1) \<le> recursion_limit rt then agent_error_text e
      else ''Error: Unable to generate trip plan. ''
             @ (if recursion_limit rt < 1 then limit_error rt else recursion_error rt))"
  using app_loop_model_turn [OF assms(1), of rt]
    app_loop_raises [of llm P messages e rt run_tool "2 * n + 1", OF assms(2)]
  by (simp add: generate_trip_plan_def app_invoke_def)

lemma py_contains_iff: "py_contains needle s \<longleftrightarrow> (\<exists>a b. s = a @ needle @ b)"
proof (induction s)
  case Nil
  then show ?case by auto
next
  case (Cons c cs)
  show ?case
  proof
    assume "py_contains needle (c # cs)"
    then consider "take (length needle) (c # cs) = needle" | "py_contains needle cs" by auto
    then show "\<exists>a b. c # cs = a @ needle @ b"
    proof cases
      case 1
      then have "c # cs = [] @ needle @ drop (length needle) (c # cs)"
        by (metis append_Nil append_take_drop_id)
      then show ?thesis by blast
    next
      case 2
      with Cons obtain a b where "cs = a @ needle @ b" by blast
      then have "c # cs = (c # a) @ needle @ b" by simp
      then show ?thesis by blast
    qed
  next
    assume "\<exists>a b. c # cs = a @ needle @ b"
    then obtain a b where ab: "c # cs = a @ needle @ b" by blast
    show "py_contains needle (c # cs)"
    proof (cases a)
      case Nil
      with ab have "take (length needle) (c # cs) = needle" by simp
      then show ?thesis by simp
    next
      case (Cons x xs)
      with ab have "cs = xs @ needle @ b" by simp
      with Cons.IH show ?thesis by auto
    qed
  qed
qed

text \<open>
  C1, as the code has it. For every query: when the model has asked for tools in the
  first \<open>n\<close> model turns and its invocation raises in turn \<open>n + 1\<close>,
  \<open>generate_trip_plan\<close> returns a string (it has no raising branch), the string is not
  empty and says that an error occurred. When \<open>2 * (n + 1)\<close> is within the recursion
  limit of the graph, the string is the message of the agent node, which asks to try
  again; beyond the limit it is the report of the library's exception behind
  ``Error: Unable to generate trip plan.''.
\<close>

theorem generate_trip_plan_fail_soft:
  assumes "model_turn P llm run_tool [HumanMessage query] n = Some messages"
      and "llm (with_system_prompt P messages) = Inl e"
  shows "generate_trip_plan rt P llm run_tool str query \<noteq> []
     \<and> (py_contains ''error'' (generate_trip_plan rt P llm run_tool str query)
        \<or> py_contains ''Error'' (generate_trip_plan rt P llm run_tool str query))
     \<and> (2 * (n + 1) \<le> recursion_limit rt \<longrightarrow>
          generate_trip_plan rt P llm run_tool str query = agent_error_text e
          \<and> py_contains ''error'' (agent_error_text e)
          \<and> py_contains ''Please try again'' (agent_error_text e))
     \<and> (recursion_limit rt < 2 * (n + 1) \<longrightarrow>
          generate_trip_plan rt P llm run_tool str query =
            ''Error: Unable to generate trip plan. ''
              @ (if recursion_limit rt < 1 then limit_error rt else recursion_error rt))"
proof -
  note g = generate_trip_plan_raises [OF assms, of rt str]
  have "agent_error_text e = ''I encountered an '' @ ''error''
          @ ('' while processing your request: '' @ e @ ''. Please try again or rephrase your query.'')"
    by (simp add: agent_error_text_def)
  then have c1: "py_contains ''error'' (agent_error_text e)"
    unfolding py_contains_iff by blast
  have "agent_error_text e = (''I encountered an error while processing your request: '' @ e @ ''. '')
          @ ''Please try again'' @ '' or rephrase your query.''"
    by (simp add: agent_error_text_def)
  then have c2: "py_contains ''Please try again'' (agent_error_text e)"
    unfolding py_contains_iff by blast
  have c3: "py_contains ''Error'' (''Error: Unable to generate trip plan. '' @ x)" for x
  proof -
    have "''Error: Unable to generate trip plan. '' @ x
        = [] @ ''Error'' @ ('': Unable to generate trip plan. '' @ x)" by simp
    then show ?thesis unfolding py_contains_iff by blast
  qed
  have ne: "agent_error_text e \<noteq> []" by (simp add: agent_error_text_def)
  show ?thesis
  proof (cases "2 * (n + 1) \<le> recursion_limit rt")
    case True
    with g have "generate_trip_plan rt P llm run_tool str query = agent_error_text e" by simp
    with True c1 c2 ne show ?thesis by simp
  next
    case False
    with g have r: "generate_trip_plan rt P llm run_tool str query =
        ''Error: Unable to generate trip plan. ''
          @ (if recursion_limit rt < 1 then limit_error rt else recursion_error rt)"
      by simp
    have "py_contains ''Error'' (generate_trip_plan rt P llm run_tool str query)"
      unfolding r by (rule c3)
    moreover have "generate_trip_plan rt P llm run_tool str query \<noteq> []"
      unfolding r by simp
    ultimately show ?thesis using False r by simp
  qed
qed

theorem generate_trip_plan_fail_soft_witness:
  "generate_trip_plan
      \<lparr>recursion_limit = 25, recursion_error = ''Recursion limit of 25 reached'',
       limit_error = ''recursion_limit must be at least 1''\<rparr>
      ''You are TripGenie'' (\<lambda>ms. Inl ''timeout'') (\<lambda>tc. Inr ''found'')
      (\<lambda>m. []) ''Plan 3 days in Rome''
   = ''I encountered an error while processing your request: timeout. Please try again or rephrase your query.''
   \<and> generate_trip_plan
      \<lparr>recursion_limit = 25, recursion_error = ''Recursion limit of 25 reached'',
       limit_error = ''recursion_limit must be at least 1''\<rparr>
      ''You are TripGenie''
      (\<lambda>ms. if length ms = 2 then Inr ([], [ToolCall ''c1'' ''search'' ''Rome hotels''])
            else Inl ''rate limit'')
      (\<lambda>tc. Inr ''found'') (\<lambda>m. []) ''Plan 3 days in Rome''
   = ''I encountered an error while processing your request: rate limit. Please try again or rephrase your query.''
   \<and> generate_trip_plan
      \<lparr>recursion_limit = 1, recursion_error = ''Recursion limit of 1 reached'',
       limit_error = ''recursion_limit must be at least 1''\<rparr>
      ''You are TripGenie'' (\<lambda>ms. Inl ''timeout'') (\<lambda>tc. Inr ''found'')
      (\<lambda>m. []) ''Plan 3 days in Rome''
   = ''Error: Unable to generate trip plan. Recursion limit of 1 reached''"
proof -
  let ?q = "HumanMessage ''Plan 3 days in Rome''"
  let ?rt = "\<lparr>recursion_limit = 25, recursion_error = ''Recursion limit of 25 reached'',
       limit_error = ''recursion_limit must be at least 1''\<rparr>"
  let ?rt1 = "\<lparr>recursion_limit = 1, recursion_error = ''Recursion limit of 1 reached'',
       limit_error = ''recursion_limit must be at least 1''\<rparr>"
  let ?llm = "\<lambda>ms. if length ms = 2 then Inr ([], [ToolCall ''c1'' ''search'' ''Rome hotels''])
            else (Inl ''rate limit'' :: string + string \<times> tool_call list)"
  let ?after = "[?q, AIMessage [] [ToolCall ''c1'' ''search'' ''Rome hotels''],
                 ToolMessage ''found'' ''c1'']"
  have t: "model_turn ''You are TripGenie'' (\<lambda>ms. Inl ''timeout'') (\<lambda>tc. Inr ''found'')
      [?q] 0 = Some [?q]"
    by simp
  have r: "(\<lambda>ms. Inl ''timeout'' :: string + string \<times> tool_call list)
      (with_system_prompt ''You are TripGenie'' [?q]) = Inl ''timeout''"
    by simp
  have t': "model_turn ''You are TripGenie'' ?llm (\<lambda>tc. Inr ''found'') [?q] (Suc 0) = Some ?after"
    by (simp add: agent_node_def)
  have r': "?llm (with_system_prompt ''You are TripGenie'' ?after) = Inl ''rate limit''"
    by (simp add: with_system_prompt_def)
  from generate_trip_plan_fail_soft [OF t r, of ?rt "\<lambda>m. []"]
    generate_trip_plan_fail_soft [OF t' r', of ?rt "\<lambda>m. []"]
    generate_trip_plan_fail_soft [OF t r, of ?rt1 "\<lambda>m. []"]
  show ?thesis
    by (simp add: agent_error_text_def)
qed

text \<open>
  With the recursion limit 25, a model that asks for a tool in its first twelve turns and
  raises in the thirteenth: the run reaches that turn, the invocation raises, and the
  result is the report of the recursion limit, which does not ask to try again.
\<close>

theorem generate_trip_plan_fail_soft_counterexample:
  "(case model_turn ''You are TripGenie''
           (\<lambda>ms. if length ms < 26 then Inr ([], [ToolCall ''c1'' ''search'' ''Rome hotels''])
                 else Inl ''timeout'')
           (\<lambda>tc. Inr ''found'') [HumanMessage ''Plan 3 days in Rome''] 12 of
      None \<Rightarrow> False
    | Some ms \<Rightarrow> length (with_system_prompt ''You are TripGenie'' ms) = 26)
   \<and> generate_trip_plan
      \<lparr>recursion_limit = 25, recursion_error = ''Recursion limit of 25 reached'',
       limit_error = ''recursion_limit must be at least 1''\<rparr>
      ''You are TripGenie''
      (\<lambda>ms. if length ms < 26 then Inr ([], [ToolCall ''c1'' ''search'' ''Rome hotels''])
            else Inl ''timeout'')
      (\<lambda>tc. Inr ''found'') (\<lambda>m. []) ''Plan 3 days in Rome''
   = ''Error: Unable to generate trip plan. Recursion limit of 25 reached''
   \<and> \<not> py_contains ''Please try again''
        ''Error: Unable to generate trip plan. Recursion limit of 25 reached''"
  by code_simp

end
